theory Spec2Isabelle
  imports Main "HOL-Library.Word" "HOL-Library.Sublist"
begin

chapter \<open>BookHub: bookmark synchronisation with a GitHub repository\<close>

text \<open>
  A shallow embedding of the parts of the extension that its specification makes
  claims about: the background service worker (event, alarm and focus triggers of
  \<open>background.js\<close>), the GitHub Contents API wrapper (\<open>lib/github-api.js\<close>) and the
  bookmark serializer (\<open>lib/bookmark-serializer.js\<close>).
\<close>

section \<open>Background service worker\<close>

text \<open>
  The service worker is a set of listeners.  A listener reads the engine's state through
  functions imported from \<open>lib/sync-engine.js\<close> (\<open>isSyncInProgress\<close>,
  \<open>isAutoSyncSuppressed\<close>, \<open>getSettings\<close>, \<open>isConfigured\<close>), reads
  \<open>chrome.storage.local\<close> and the clock, and acts on the outside world by calling
  \<open>debouncedSync\<close>, \<open>sync\<close>, \<open>push\<close>, \<open>pull\<close>, the badge API and the console.

  One run of a listener is modelled as a function from what the run observes (the record
  \<open>env\<close>: one field for each value the listener reads) to the list of actions it
  performs, in program order.  The engine functions themselves are not part of the
  service worker; what they return is an observation.

  The sources hold two revisions of the worker.  The model follows the later one
  (three-way \<open>debouncedSync\<close>, suppression flag, configurable delay, focus listener);
  the earlier one only read \<open>isSyncInProgress()\<close> and called \<open>debouncedPush(5000)\<close>.
\<close>

record settings =
  autoSync :: bool                  \<comment> \<open>\<open>settings[STORAGE_KEYS.AUTO_SYNC]\<close>\<close>
  syncOnFocus :: bool               \<comment> \<open>\<open>settings[STORAGE_KEYS.SYNC_ON_FOCUS]\<close>\<close>
  syncOnStartup :: bool             \<comment> \<open>\<open>settings[STORAGE_KEYS.SYNC_ON_STARTUP]\<close>\<close>
  debounceDelay :: "int option"     \<comment> \<open>\<open>settings[STORAGE_KEYS.DEBOUNCE_DELAY]\<close>, \<open>None\<close> when null or undefined\<close>
  syncInterval :: "int option"      \<comment> \<open>\<open>settings[STORAGE_KEYS.SYNC_INTERVAL]\<close>\<close>

record local_storage =
  lastSyncTime :: "string option"   \<comment> \<open>\<open>STORAGE_KEYS.LAST_SYNC_TIME\<close>, a date string; \<open>None\<close> when absent\<close>
  hasConflict :: bool               \<comment> \<open>the persisted conflict flag shown by the popup\<close>

record sync_result =
  success :: bool
  message :: string

record env =
  syncInProgress :: bool            \<comment> \<open>\<open>isSyncInProgress()\<close>\<close>
  autoSyncSuppressed :: bool        \<comment> \<open>\<open>isAutoSyncSuppressed()\<close>\<close>
  getSettings :: settings           \<comment> \<open>\<open>await getSettings()\<close>\<close>
  isConfigured :: bool              \<comment> \<open>\<open>isConfigured(settings)\<close>\<close>
  storage :: local_storage          \<comment> \<open>\<open>chrome.storage.local\<close>\<close>
  dateNow :: int                    \<comment> \<open>\<open>Date.now()\<close>, milliseconds\<close>
  dateParse :: "string \<Rightarrow> int option"
    \<comment> \<open>\<open>new Date(s).getTime()\<close>; \<open>None\<close> is NaN (an invalid date)\<close>
  syncReturns :: sync_result        \<comment> \<open>what \<open>await sync()\<close> resolves to\<close>

datatype action =
    Log string                      \<comment> \<open>\<open>console.log\<close>, by its fixed first argument\<close>
  | DebouncedSync int               \<comment> \<open>\<open>debouncedSync(delayMs)\<close>\<close>
  | CallSync                        \<comment> \<open>\<open>sync()\<close>\<close>
  | CallPush                        \<comment> \<open>\<open>push()\<close>\<close>
  | CallPull                        \<comment> \<open>\<open>pull()\<close>\<close>
  | CallGetSyncStatus               \<comment> \<open>\<open>getSyncStatus()\<close>\<close>
  | CallSetupAlarm                  \<comment> \<open>\<open>setupAlarm()\<close>\<close>
  | SetBadgeText string             \<comment> \<open>\<open>chrome.action.setBadgeText\<close>\<close>
  | SetBadgeBackgroundColor string  \<comment> \<open>\<open>chrome.action.setBadgeBackgroundColor\<close>\<close>

definition ALARM_NAME :: string where
  "ALARM_NAME = ''bookmarkSyncPull''"

definition FOCUS_SYNC_COOLDOWN_MS :: int where
  "FOCUS_SYNC_COOLDOWN_MS = 60000"

text \<open>
  \<open>triggerAutoSync\<close>: both flags are read before the settings are awaited; the delay is
  \<open>settings[DEBOUNCE_DELAY] ?? 5000\<close>.
\<close>

definition triggerAutoSync :: "env \<Rightarrow> action list" where
  "triggerAutoSync e =
     (if syncInProgress e then []
      else if autoSyncSuppressed e then []
      else if autoSync (getSettings e) \<and> isConfigured e then
        [DebouncedSync (case debounceDelay (getSettings e) of None \<Rightarrow> 5000 | Some d \<Rightarrow> d)]
      else [])"

text \<open>The four bookmark listeners log the event and call \<open>triggerAutoSync\<close>.\<close>

datatype bookmark_event = Created | Removed | Changed | Moved

fun event_log :: "bookmark_event \<Rightarrow> string" where
  "event_log Created = ''[BookHub] Bookmark created:''"
| "event_log Removed = ''[BookHub] Bookmark removed:''"
| "event_log Changed = ''[BookHub] Bookmark changed:''"
| "event_log Moved = ''[BookHub] Bookmark moved:''"

definition onBookmarkEvent :: "bookmark_event \<Rightarrow> env \<Rightarrow> action list" where
  "onBookmarkEvent ev e = Log (event_log ev) # triggerAutoSync e"

text \<open>The badge update that follows a sync started by the alarm or by focus.\<close>

definition badge_after :: "sync_result \<Rightarrow> action list" where
  "badge_after r =
     (if \<not> success r then [SetBadgeText ''!'', SetBadgeBackgroundColor ''#F44336'']
      else [SetBadgeText []])"

text \<open>\<open>chrome.alarms.onAlarm\<close> listener; its argument is \<open>alarm.name\<close>.\<close>

definition onAlarm :: "string \<Rightarrow> env \<Rightarrow> action list" where
  "onAlarm name e =
     (if name = ALARM_NAME then
        Log ''[BookHub] Periodic sync triggered'' #
        (if isConfigured e \<and> autoSync (getSettings e) then
           [CallSync, Log ''[BookHub] Periodic sync result:''] @ badge_after (syncReturns e)
         else [])
      else [])"

text \<open>
  \<open>chrome.windows.onFocusChanged\<close> listener; its argument is the window id
  (\<open>WINDOW_ID_NONE\<close> is \<open>-1\<close>).  \<open>if (lastSync)\<close> holds for a non-empty string; with an
  invalid date \<open>elapsed\<close> is NaN and \<open>elapsed < FOCUS_SYNC_COOLDOWN_MS\<close> is false.
\<close>

definition WINDOW_ID_NONE :: int where
  "WINDOW_ID_NONE = -1"

definition in_cooldown :: "env \<Rightarrow> bool" where
  "in_cooldown e =
     (case lastSyncTime (storage e) of
        None \<Rightarrow> False
      | Some lastSync \<Rightarrow>
          if lastSync = [] then False
          else (case dateParse e lastSync of
                  None \<Rightarrow> False
                | Some t \<Rightarrow> dateNow e - t < FOCUS_SYNC_COOLDOWN_MS))"

definition onFocusChanged :: "int \<Rightarrow> env \<Rightarrow> action list" where
  "onFocusChanged windowId e =
     (if windowId = WINDOW_ID_NONE \<or> windowId < 0 then []
      else if \<not> syncOnFocus (getSettings e) \<or> \<not> isConfigured e \<or> \<not> autoSync (getSettings e) then []
      else if in_cooldown e then []
      else if syncInProgress e then []
      else [Log ''[BookHub] Sync on focus triggered'', CallSync] @ badge_after (syncReturns e))"

text \<open>\<open>chrome.runtime.onMessage\<close> listener, by \<open>message.action\<close>.\<close>

definition onMessage :: "string \<Rightarrow> env \<Rightarrow> action list" where
  "onMessage act e =
     (if act = ''sync'' then [CallSync]
      else if act = ''push'' then [CallPush]
      else if act = ''pull'' then [CallPull]
      else if act = ''getStatus'' then [CallGetSyncStatus]
      else if act = ''settingsChanged'' then [CallSetupAlarm]
      else [])"

fun is_DebouncedSync :: "action \<Rightarrow> bool" where
  "is_DebouncedSync (DebouncedSync d) = True"
| "is_DebouncedSync a = False"

section \<open>Properties of the triggers\<close>

text \<open>Two observations used as concrete scenarios: a configured profile with every
  trigger enabled, no delay configured, last synchronised at time \<open>1000000\<close>.\<close>

definition base_settings :: settings where
  "base_settings =
     \<lparr>autoSync = True, syncOnFocus = True, syncOnStartup = False,
      debounceDelay = None, syncInterval = None\<rparr>"

definition base_env :: env where
  "base_env =
     \<lparr>syncInProgress = False, autoSyncSuppressed = False, getSettings = base_settings,
      isConfigured = True,
      storage = \<lparr>lastSyncTime = Some ''1970-01-01T00:16:40.000Z'', hasConflict = False\<rparr>,
      dateNow = 2000000, dateParse = (\<lambda>s. Some 1000000),
      syncReturns = \<lparr>success = True, message = ''ok''\<rparr>\<rparr>"

text \<open>
  C2.  For each of the four bookmark mutation events: when the auto-sync suppression flag
  is raised, or a sync is in progress, at the time the handler runs, the handler schedules
  no debounced sync (it only logs the event), and \<open>triggerAutoSync\<close> does nothing at all.
\<close>

theorem suppressed_event_schedules_nothing:
  assumes "autoSyncSuppressed e \<or> syncInProgress e"
  shows "triggerAutoSync e = [] \<and>
         onBookmarkEvent ev e = [Log (event_log ev)] \<and>
         filter is_DebouncedSync (onBookmarkEvent ev e) = []"
  using assms by (auto simp: triggerAutoSync_def onBookmarkEvent_def)

theorem suppressed_event_schedules_nothing_witness:
  "autoSyncSuppressed (base_env\<lparr>autoSyncSuppressed := True\<rparr>) \<and>
   triggerAutoSync (base_env\<lparr>autoSyncSuppressed := True\<rparr>) = [] \<and>
   onBookmarkEvent Moved (base_env\<lparr>autoSyncSuppressed := True\<rparr>) =
     [Log ''[BookHub] Bookmark moved:''] \<and>
   triggerAutoSync base_env = [DebouncedSync 5000]"
proof -
  have h: "autoSyncSuppressed (base_env\<lparr>autoSyncSuppressed := True\<rparr>) \<or>
           syncInProgress (base_env\<lparr>autoSyncSuppressed := True\<rparr>)"
    by simp
  have "triggerAutoSync base_env = [DebouncedSync 5000]"
    by (simp add: triggerAutoSync_def base_env_def base_settings_def)
  with suppressed_event_schedules_nothing [OF h, of Moved] show ?thesis
    by simp
qed

text \<open>
  C8.  When a bookmark mutation event triggers auto-sync (auto-sync enabled, profile
  configured, neither suppressed nor in progress), exactly one debounced sync is scheduled:
  with the configured delay when there is one, with 5000 milliseconds when there is none.
  Whatever the observations, every debounced sync a bookmark event schedules has that delay.
\<close>

theorem debounce_delay_configured_or_5000:
  "(autoSync (getSettings e) \<and> isConfigured e \<and> \<not> autoSyncSuppressed e \<and> \<not> syncInProgress e
      \<longrightarrow> (debounceDelay (getSettings e) = Some d \<longrightarrow>
             onBookmarkEvent ev e = [Log (event_log ev), DebouncedSync d]) \<and>
          (debounceDelay (getSettings e) = None \<longrightarrow>
             onBookmarkEvent ev e = [Log (event_log ev), DebouncedSync 5000])) \<and>
   (\<forall>a \<in> set (onBookmarkEvent ev e). is_DebouncedSync a \<longrightarrow>
      a = DebouncedSync (case debounceDelay (getSettings e) of None \<Rightarrow> 5000 | Some d \<Rightarrow> d))"
  by (auto simp: triggerAutoSync_def onBookmarkEvent_def)

theorem debounce_delay_configured_or_5000_witness:
  "onBookmarkEvent Created base_env = [Log ''[BookHub] Bookmark created:'', DebouncedSync 5000] \<and>
   onBookmarkEvent Created (base_env\<lparr>getSettings := base_settings\<lparr>debounceDelay := Some 1500\<rparr>\<rparr>) =
     [Log ''[BookHub] Bookmark created:'', DebouncedSync 1500]"
proof -
  let ?e = "base_env\<lparr>getSettings := base_settings\<lparr>debounceDelay := Some 1500\<rparr>\<rparr>"
  have a: "autoSync (getSettings base_env) \<and> isConfigured base_env \<and>
           \<not> autoSyncSuppressed base_env \<and> \<not> syncInProgress base_env \<and>
           debounceDelay (getSettings base_env) = None"
    by (simp add: base_env_def base_settings_def)
  have b: "autoSync (getSettings ?e) \<and> isConfigured ?e \<and>
           \<not> autoSyncSuppressed ?e \<and> \<not> syncInProgress ?e \<and>
           debounceDelay (getSettings ?e) = Some 1500"
    by (simp add: base_env_def base_settings_def)
  from a debounce_delay_configured_or_5000 [of base_env 0 Created]
  have 1: "onBookmarkEvent Created base_env = [Log (event_log Created), DebouncedSync 5000]"
    by blast
  from b debounce_delay_configured_or_5000 [of ?e 1500 Created]
  have 2: "onBookmarkEvent Created ?e = [Log (event_log Created), DebouncedSync 1500]"
    by blast
  from 1 2 show ?thesis by simp
qed

text \<open>
  C7.  A focus change calls \<open>sync()\<close> exactly when the window id is a real window,
  sync-on-focus is enabled, the profile is configured, auto-sync is enabled, no sync is in
  progress and the cooldown is over.  With a recorded last sync time \<open>t\<close>, a call implies
  that at least 60000 milliseconds have passed since \<open>t\<close>, and within the cooldown window
  the listener does nothing.
\<close>

theorem focus_sync_conditions:
  "(CallSync \<in> set (onFocusChanged w e) \<longleftrightarrow>
      0 \<le> w \<and> syncOnFocus (getSettings e) \<and> isConfigured e \<and> autoSync (getSettings e) \<and>
      \<not> syncInProgress e \<and> \<not> in_cooldown e) \<and>
   (lastSyncTime (storage e) = Some s \<and> s \<noteq> [] \<and> dateParse e s = Some t \<longrightarrow>
      (in_cooldown e \<longleftrightarrow> dateNow e - t < 60000) \<and>
      (CallSync \<in> set (onFocusChanged w e) \<longrightarrow> 60000 \<le> dateNow e - t) \<and>
      (dateNow e - t < 60000 \<longrightarrow> onFocusChanged w e = []))"
  by (auto simp: onFocusChanged_def in_cooldown_def WINDOW_ID_NONE_def
      FOCUS_SYNC_COOLDOWN_MS_def badge_after_def)

theorem focus_sync_conditions_witness:
  "onFocusChanged 7 base_env =
     [Log ''[BookHub] Sync on focus triggered'', CallSync, SetBadgeText []] \<and>
   dateNow base_env - 1000000 = 1000000 \<and>
   onFocusChanged 7 (base_env\<lparr>dateNow := 1059999\<rparr>) = [] \<and>
   onFocusChanged 7 (base_env\<lparr>dateNow := 1060000\<rparr>) =
     [Log ''[BookHub] Sync on focus triggered'', CallSync, SetBadgeText []]"
proof -
  let ?e = "base_env\<lparr>dateNow := 1059999\<rparr>"
  have h: "lastSyncTime (storage ?e) = Some ''1970-01-01T00:16:40.000Z'' \<and>
           ''1970-01-01T00:16:40.000Z'' \<noteq> [] \<and>
           dateParse ?e ''1970-01-01T00:16:40.000Z'' = Some 1000000 \<and>
           dateNow ?e - 1000000 < 60000"
    by (simp add: base_env_def)
  from h focus_sync_conditions [of 7 ?e "''1970-01-01T00:16:40.000Z''" 1000000]
  have "onFocusChanged 7 ?e = []"
    by blast
  moreover have "onFocusChanged 7 base_env =
      [Log ''[BookHub] Sync on focus triggered'', CallSync, SetBadgeText []]"
    by (simp add: onFocusChanged_def in_cooldown_def WINDOW_ID_NONE_def
        FOCUS_SYNC_COOLDOWN_MS_def badge_after_def base_env_def base_settings_def)
  moreover have "onFocusChanged 7 (base_env\<lparr>dateNow := 1060000\<rparr>) =
      [Log ''[BookHub] Sync on focus triggered'', CallSync, SetBadgeText []]"
    by (simp add: onFocusChanged_def in_cooldown_def WINDOW_ID_NONE_def
        FOCUS_SYNC_COOLDOWN_MS_def badge_after_def base_env_def base_settings_def)
  moreover have "dateNow base_env - 1000000 = 1000000"
    by (simp add: base_env_def)
  ultimately show ?thesis by simp
qed

text \<open>
  C3 (as stated).  With the conflict flag set, none of the automatic triggers would call
  or schedule \<open>sync()\<close>.  The listeners never read the flag: in a state with the flag set,
  the alarm and the focus change call \<open>sync()\<close> and a bookmark event schedules it; when that
  \<open>sync()\<close> succeeds the badge is cleared, so nothing tells the user.  The call is the same
  argument-free \<open>sync()\<close> that the manual \<open>sync\<close> message makes.
\<close>

theorem auto_sync_runs_despite_conflict:
  "hasConflict (storage (base_env\<lparr>storage := \<lparr>lastSyncTime = None, hasConflict = True\<rparr>\<rparr>)) \<and>
   onAlarm ''bookmarkSyncPull'' (base_env\<lparr>storage := \<lparr>lastSyncTime = None, hasConflict = True\<rparr>\<rparr>) =
     [Log ''[BookHub] Periodic sync triggered'', CallSync,
      Log ''[BookHub] Periodic sync result:'', SetBadgeText []] \<and>
   onFocusChanged 1 (base_env\<lparr>storage := \<lparr>lastSyncTime = None, hasConflict = True\<rparr>\<rparr>) =
     [Log ''[BookHub] Sync on focus triggered'', CallSync, SetBadgeText []] \<and>
   onBookmarkEvent Changed (base_env\<lparr>storage := \<lparr>lastSyncTime = None, hasConflict = True\<rparr>\<rparr>) =
     [Log ''[BookHub] Bookmark changed:'', DebouncedSync 5000] \<and>
   onMessage ''sync'' (base_env\<lparr>storage := \<lparr>lastSyncTime = None, hasConflict = True\<rparr>\<rparr>) =
     [CallSync]"
  by (simp add: onAlarm_def onFocusChanged_def onBookmarkEvent_def triggerAutoSync_def
      onMessage_def in_cooldown_def badge_after_def ALARM_NAME_def WINDOW_ID_NONE_def
      base_env_def base_settings_def)

text \<open>
  C3 (amended).  The conflict flag does not gate auto-sync: the debounce, alarm and focus
  triggers behave the same whether the flag is set or not.  A \<open>sync()\<close> started by the alarm
  or by a focus change that fails is not silent: the badge is set to \<open>!\<close> on a red
  background.  The manual entry points stay available: a \<open>sync\<close>, \<open>push\<close> or \<open>pull\<close>
  message always calls the corresponding engine function.
\<close>

theorem conflict_flag_not_consulted:
  "onBookmarkEvent ev (e\<lparr>storage := (storage e)\<lparr>hasConflict := c\<rparr>\<rparr>) = onBookmarkEvent ev e \<and>
   onAlarm n (e\<lparr>storage := (storage e)\<lparr>hasConflict := c\<rparr>\<rparr>) = onAlarm n e \<and>
   onFocusChanged w (e\<lparr>storage := (storage e)\<lparr>hasConflict := c\<rparr>\<rparr>) = onFocusChanged w e \<and>
   (CallSync \<in> set (onAlarm n e) \<and> \<not> success (syncReturns e) \<longrightarrow>
      SetBadgeText ''!'' \<in> set (onAlarm n e) \<and>
      SetBadgeBackgroundColor ''#F44336'' \<in> set (onAlarm n e)) \<and>
   (CallSync \<in> set (onFocusChanged w e) \<and> \<not> success (syncReturns e) \<longrightarrow>
      SetBadgeText ''!'' \<in> set (onFocusChanged w e) \<and>
      SetBadgeBackgroundColor ''#F44336'' \<in> set (onFocusChanged w e)) \<and>
   onMessage ''sync'' e = [CallSync] \<and>
   onMessage ''push'' e = [CallPush] \<and>
   onMessage ''pull'' e = [CallPull]"
proof -
  let ?e' = "e\<lparr>storage := (storage e)\<lparr>hasConflict := c\<rparr>\<rparr>"
  have cd: "in_cooldown ?e' = in_cooldown e"
    by (simp add: in_cooldown_def split: option.splits)
  have "onBookmarkEvent ev ?e' = onBookmarkEvent ev e"
    by (simp add: onBookmarkEvent_def triggerAutoSync_def)
  moreover have "onAlarm n ?e' = onAlarm n e"
    by (simp add: onAlarm_def)
  moreover have "onFocusChanged w ?e' = onFocusChanged w e"
    by (simp add: onFocusChanged_def cd)
  moreover have "CallSync \<in> set (onAlarm n e) \<and> \<not> success (syncReturns e) \<longrightarrow>
      SetBadgeText ''!'' \<in> set (onAlarm n e) \<and>
      SetBadgeBackgroundColor ''#F44336'' \<in> set (onAlarm n e)"
    by (simp add: onAlarm_def badge_after_def)
  moreover have "CallSync \<in> set (onFocusChanged w e) \<and> \<not> success (syncReturns e) \<longrightarrow>
      SetBadgeText ''!'' \<in> set (onFocusChanged w e) \<and>
      SetBadgeBackgroundColor ''#F44336'' \<in> set (onFocusChanged w e)"
    by (simp add: onFocusChanged_def badge_after_def)
  moreover have "onMessage ''sync'' e = [CallSync] \<and> onMessage ''push'' e = [CallPush] \<and>
      onMessage ''pull'' e = [CallPull]"
    by (simp add: onMessage_def)
  ultimately show ?thesis by blast
qed

theorem conflict_flag_not_consulted_witness:
  "onAlarm ''bookmarkSyncPull''
     (base_env\<lparr>syncReturns := \<lparr>success = False, message = ''Konflikt''\<rparr>,
               storage := \<lparr>lastSyncTime = None, hasConflict = True\<rparr>\<rparr>) =
     [Log ''[BookHub] Periodic sync triggered'', CallSync, Log ''[BookHub] Periodic sync result:'',
      SetBadgeText ''!'', SetBadgeBackgroundColor ''#F44336''] \<and>
   SetBadgeText ''!'' \<in> set (onAlarm ''bookmarkSyncPull''
     (base_env\<lparr>syncReturns := \<lparr>success = False, message = ''Konflikt''\<rparr>,
               storage := \<lparr>lastSyncTime = None, hasConflict = True\<rparr>\<rparr>))"
proof -
  let ?e = "base_env\<lparr>syncReturns := \<lparr>success = False, message = ''Konflikt''\<rparr>,
               storage := \<lparr>lastSyncTime = None, hasConflict = True\<rparr>\<rparr>"
  have tr: "onAlarm ''bookmarkSyncPull'' ?e =
     [Log ''[BookHub] Periodic sync triggered'', CallSync, Log ''[BookHub] Periodic sync result:'',
      SetBadgeText ''!'', SetBadgeBackgroundColor ''#F44336'']"
    by (simp add: onAlarm_def badge_after_def ALARM_NAME_def base_env_def base_settings_def)
  then have h: "CallSync \<in> set (onAlarm ''bookmarkSyncPull'' ?e) \<and> \<not> success (syncReturns ?e)"
    by simp
  from h conflict_flag_not_consulted [where e = ?e and n = "''bookmarkSyncPull''"]
  have "SetBadgeText ''!'' \<in> set (onAlarm ''bookmarkSyncPull'' ?e)"
    by blast
  with tr show ?thesis by blast
qed

section \<open>Single-flight execution\<close>

text \<open>
  Modelled from the spec: the entry points \<open>push()\<close>, \<open>pull()\<close> and \<open>sync()\<close> and their
  in-flight flag live in \<open>lib/sync-engine.js\<close>, which is not among the sources; the service
  worker only imports them.  The specification gives the coordinator as the state machine
  \<open>Idle \<rightarrow> Running(mode) \<rightarrow> Idle\<close>: "an explicit in-flight flag checked at the start of
  every entry point; a second call observing the flag set returns immediately without side
  effects rather than blocking or queuing".

  The state keeps the flag and, separately, the operations whose body is executing, so that
  "at most one" is a property to prove and not a property of the type.  \<open>performed\<close>
  records the side effects: every operation body that was started.
\<close>

datatype mode = Push | Pull | Sync

record coordinator =
  inFlight :: bool
  executing :: "mode list"
  performed :: "mode list"

datatype outcome = Started | Rejected

text \<open>Modelled from the spec: the coordinator's state \<open>Idle\<close>, before any call.\<close>

definition idle :: coordinator where
  "idle = \<lparr>inFlight = False, executing = [], performed = []\<rparr>"

text \<open>
  Modelled from the spec: the start of an entry point (\<open>push\<close>, \<open>pull\<close> or \<open>sync\<close> of
  \<open>lib/sync-engine.js\<close>).  The flag is checked first; a call that finds it set is
  rejected and changes nothing, any other call sets it and starts its body.
\<close>

definition enter :: "mode \<Rightarrow> coordinator \<Rightarrow> outcome \<times> coordinator" where
  "enter m c =
     (if inFlight c then (Rejected, c)
      else (Started, c\<lparr>inFlight := True, executing := m # executing c,
                       performed := performed c @ [m]\<rparr>))"

text \<open>
  Modelled from the spec: the end of an operation body of \<open>lib/sync-engine.js\<close>, on
  success or on failure (\<open>Running(mode) \<rightarrow> Idle\<close>); the flag is cleared.
\<close>

definition complete :: "mode \<Rightarrow> coordinator \<Rightarrow> coordinator" where
  "complete m c = c\<lparr>inFlight := False, executing := remove1 m (executing c)\<rparr>"

text \<open>
  Modelled from the spec: what can happen to the coordinator of \<open>lib/sync-engine.js\<close>.
  An entry point is called (by a listener, a debounce tick or a message), or an executing
  operation reaches its end.
\<close>

datatype coordinator_event = Call mode | Finish

fun coordinator_step :: "coordinator \<Rightarrow> coordinator_event \<Rightarrow> coordinator" where
  "coordinator_step c (Call m) = snd (enter m c)"
| "coordinator_step c Finish =
     (case executing c of [] \<Rightarrow> c | m # ms \<Rightarrow> complete m c)"

definition run :: "coordinator_event list \<Rightarrow> coordinator" where
  "run evs = foldl coordinator_step idle evs"

definition single_flight :: "coordinator \<Rightarrow> bool" where
  "single_flight c = (length (executing c) \<le> 1 \<and> (inFlight c = (executing c \<noteq> [])))"

lemma single_flight_idle: "single_flight idle"
  by (simp add: single_flight_def idle_def)

lemma single_flight_step:
  assumes "single_flight c"
  shows "single_flight (coordinator_step c ev)"
proof (cases ev)
  case (Call m)
  with assms show ?thesis
    by (simp add: single_flight_def enter_def)
next
  case Finish
  show ?thesis
  proof (cases "executing c")
    case Nil
    with assms Finish show ?thesis by simp
  next
    case (Cons m ms)
    with assms have "ms = []"
      by (simp add: single_flight_def)
    with Cons Finish show ?thesis
      by (simp add: single_flight_def complete_def)
  qed
qed

lemma single_flight_foldl:
  "single_flight c \<Longrightarrow> single_flight (foldl coordinator_step c evs)"
  by (induction evs arbitrary: c) (simp_all add: single_flight_step)

lemma single_flight_run: "single_flight (run evs)"
  unfolding run_def by (rule single_flight_foldl [OF single_flight_idle])

text \<open>
  C4.  Whatever sequence of calls and completions a coordinator goes through, at most one
  of \<open>push\<close>, \<open>pull\<close>, \<open>sync\<close> is executing, and the flag is set exactly while one is.  A
  call that finds the flag set is rejected at once: the state, and with it the record of
  side effects, is unchanged, and nothing is queued.  The two places of the service worker
  that read the flag themselves (\<open>triggerAutoSync\<close> and the focus listener) do nothing when
  a sync is in progress.
\<close>

theorem at_most_one_in_flight:
  "length (executing (run evs)) \<le> 1 \<and>
   inFlight (run evs) = (executing (run evs) \<noteq> []) \<and>
   (inFlight c \<longrightarrow> enter m c = (Rejected, c) \<and> coordinator_step c (Call m) = c) \<and>
   (inFlight (run evs) \<longrightarrow> run (evs @ [Call m]) = run evs) \<and>
   (syncInProgress e \<longrightarrow> triggerAutoSync e = [] \<and> onFocusChanged w e = [])"
proof -
  have sf: "single_flight (run evs)"
    by (rule single_flight_run)
  have rej: "inFlight c \<longrightarrow> enter m c = (Rejected, c) \<and> coordinator_step c (Call m) = c" for c
    by (simp add: enter_def)
  have "inFlight (run evs) \<longrightarrow> run (evs @ [Call m]) = run evs"
    using rej [of "run evs"] by (simp add: run_def)
  moreover have "syncInProgress e \<longrightarrow> triggerAutoSync e = [] \<and> onFocusChanged w e = []"
    by (simp add: triggerAutoSync_def onFocusChanged_def)
  ultimately show ?thesis
    using sf rej [of c] by (simp add: single_flight_def)
qed

theorem at_most_one_in_flight_witness:
  "run [Call Sync, Call Push, Call Sync] =
     \<lparr>inFlight = True, executing = [Sync], performed = [Sync]\<rparr> \<and>
   run [Call Sync, Call Push, Finish, Call Pull] =
     \<lparr>inFlight = True, executing = [Pull], performed = [Sync, Pull]\<rparr> \<and>
   enter Pull (run [Call Sync]) = (Rejected, run [Call Sync]) \<and>
   triggerAutoSync (base_env\<lparr>syncInProgress := True\<rparr>) = [] \<and>
   onFocusChanged 3 (base_env\<lparr>syncInProgress := True\<rparr>) = []"
proof -
  have a: "run [Call Sync] = \<lparr>inFlight = True, executing = [Sync], performed = [Sync]\<rparr>"
    by (simp add: run_def idle_def enter_def)
  have b: "run [Call Sync, Call Push, Call Sync] =
      \<lparr>inFlight = True, executing = [Sync], performed = [Sync]\<rparr>"
    by (simp add: run_def idle_def enter_def)
  have c: "run [Call Sync, Call Push, Finish, Call Pull] =
      \<lparr>inFlight = True, executing = [Pull], performed = [Sync, Pull]\<rparr>"
    by (simp add: run_def idle_def enter_def complete_def)
  have h1: "inFlight (run [Call Sync])"
    by (simp add: a)
  have h2: "syncInProgress (base_env\<lparr>syncInProgress := True\<rparr>)"
    by simp
  from h1 h2
    at_most_one_in_flight [where c = "run [Call Sync]" and m = Pull and evs = "[Call Sync]"
      and e = "base_env\<lparr>syncInProgress := True\<rparr>" and w = 3]
  have "enter Pull (run [Call Sync]) = (Rejected, run [Call Sync]) \<and>
        triggerAutoSync (base_env\<lparr>syncInProgress := True\<rparr>) = [] \<and>
        onFocusChanged 3 (base_env\<lparr>syncInProgress := True\<rparr>) = []"
    by blast
  with b c show ?thesis by blast
qed

section \<open>GitHub Contents API wrapper\<close>

text \<open>
  A thrown exception is the left summand of the result.  \<open>GitHubError\<close> is the class of
  \<open>lib/github-api.js\<close> with its two fields; the other three are the platform's exceptions
  that the wrapper lets through: \<open>response.json()\<close> on a body that is not JSON, a property
  read on \<open>undefined\<close>, and \<open>atob\<close> on a string that is not base64.
\<close>

datatype error =
    GitHubError (errorMessage: string) (statusCode: nat)
  | SyntaxError
  | TypeError
  | InvalidCharacterError

text \<open>
  The response of the store to one request.  \<open>body\<close> is what \<open>response.json()\<close>
  resolves to, \<open>None\<close> when it rejects; of the JSON object only the properties the wrapper
  reads are kept, each \<open>None\<close> when undefined.  \<open>response.ok\<close> is the Fetch API's
  "status in the range 200 to 299".
\<close>

record json_body =
  body_message :: "string option"
  body_content :: "string option"
  body_sha :: "string option"

record response =
  status :: nat
  body :: "json_body option"

definition ok :: "response \<Rightarrow> bool" where
  "ok r = (200 \<le> status r \<and> status r \<le> 299)"

text \<open>\<open>String.prototype.includes\<close>: the argument occurs as a contiguous substring.\<close>

definition string_includes :: "string \<Rightarrow> string \<Rightarrow> bool" where
  "string_includes s p = sublist p s"

text \<open>
  \<open>data.message && data.message.includes('rate limit')\<close>, where \<open>data\<close> is the parsed
  body, or \<open>{}\<close> when parsing fails; the empty string is falsy.
\<close>

definition mentions_rate_limit :: "response \<Rightarrow> bool" where
  "mentions_rate_limit r =
     (case body r of
        None \<Rightarrow> False
      | Some data \<Rightarrow>
          (case body_message data of
             None \<Rightarrow> False
           | Some m \<Rightarrow> m \<noteq> [] \<and> string_includes m ''rate limit''))"

text \<open>
  \<open>GitHubAPI._fetch\<close>, applied to the response that \<open>fetch\<close> resolved to.  \<open>getMessage\<close>
  (of \<open>lib/i18n.js\<close>: message key and substitutions to localized text) is a parameter.
\<close>

definition GitHubAPI_fetch :: "(string \<Rightarrow> nat list \<Rightarrow> string) \<Rightarrow> response \<Rightarrow> error + response" where
  "GitHubAPI_fetch getMessage r =
     (if status r = 401 then Inl (GitHubError (getMessage ''api_invalidToken'' []) 401)
      else if status r = 403 then
        (if mentions_rate_limit r then Inl (GitHubError (getMessage ''api_rateLimitExceeded'' []) 403)
         else Inl (GitHubError (getMessage ''api_accessDenied'' []) 403))
      else if status r = 409 then Inl (GitHubError (getMessage ''api_conflict'' []) 409)
      else Inr r)"



section \<open>Strings, UTF-8 and base64\<close>

text \<open>
  A JavaScript string is a sequence of 16-bit code units.  The wrapper encodes file contents
  with \<open>TextEncoder\<close>, \<open>btoa\<close>, \<open>atob\<close> and \<open>TextDecoder\<close>; these are functions of the
  platform, modelled here from their standards.
\<close>

type_synonym jsstring = "16 word list"

subsection \<open>UTF-16\<close>

text \<open>
  A high surrogate followed by a low surrogate is one code point above \<open>0xFFFF\<close>; any
  other surrogate is unpaired.  \<open>scalar_values\<close> is the conversion every Web API applies
  to a string argument: an unpaired surrogate becomes \<open>U+FFFD\<close>.
\<close>

definition is_high :: "16 word \<Rightarrow> bool" where
  "is_high c = (0xD800 \<le> c \<and> c \<le> 0xDBFF)"
definition is_low :: "16 word \<Rightarrow> bool" where
  "is_low c = (0xDC00 \<le> c \<and> c \<le> 0xDFFF)"

definition pair_code_point :: "16 word \<Rightarrow> 16 word \<Rightarrow> nat" where
  "pair_code_point hi lo = 0x10000 + (unat hi - 0xD800) * 0x400 + (unat lo - 0xDC00)"

fun scalar_values :: "jsstring \<Rightarrow> nat list" where
  "scalar_values [] = []"
| "scalar_values (c # cs) =
     (if is_high c then
        (case cs of
           [] \<Rightarrow> [0xFFFD]
         | d # ds \<Rightarrow> if is_low d then pair_code_point c d # scalar_values ds
                    else 0xFFFD # scalar_values cs)
      else if is_low c then 0xFFFD # scalar_values cs
      else unat c # scalar_values cs)"

definition utf16_units :: "nat \<Rightarrow> jsstring" where
  "utf16_units cp =
     (if cp < 0x10000 then [of_nat cp]
      else [of_nat (0xD800 + (cp - 0x10000) div 0x400), of_nat (0xDC00 + (cp - 0x10000) mod 0x400)])"

text \<open>\<open>String.prototype.isWellFormed\<close>: no unpaired surrogate.\<close>

fun well_formed :: "jsstring \<Rightarrow> bool" where
  "well_formed [] = True"
| "well_formed (c # cs) =
     (if is_high c then
        (case cs of [] \<Rightarrow> False | d # ds \<Rightarrow> is_low d \<and> well_formed ds)
      else \<not> is_low c \<and> well_formed cs)"

subsection \<open>UTF-8\<close>

text \<open>
  \<open>new TextEncoder().encode(str)\<close> is the UTF-8 encoding of the scalar values of \<open>str\<close>;
  bytes are natural numbers below 256.  \<open>new TextDecoder().decode(bytes)\<close> is the UTF-8
  decoder of the Encoding standard in its default mode: its state is the code point being
  assembled, the bytes seen and needed, and the bounds of the next byte; a byte that does
  not fit yields \<open>U+FFFD\<close> and, inside a sequence, is read again; a leading \<open>U+FEFF\<close> of
  the output is dropped (\<open>ignoreBOM\<close> is false).
\<close>

definition utf8_bytes :: "nat \<Rightarrow> nat list" where
  "utf8_bytes cp =
     (if cp < 0x80 then [cp]
      else if cp < 0x800 then [0xC0 + cp div 64, 0x80 + cp mod 64]
      else if cp < 0x10000 then [0xE0 + cp div 4096, 0x80 + cp div 64 mod 64, 0x80 + cp mod 64]
      else [0xF0 + cp div 262144, 0x80 + cp div 4096 mod 64, 0x80 + cp div 64 mod 64, 0x80 + cp mod 64])"

definition TextEncoder_encode :: "jsstring \<Rightarrow> nat list" where
  "TextEncoder_encode str = concat (map utf8_bytes (scalar_values str))"

function utf8_decoder :: "nat \<Rightarrow> nat \<Rightarrow> nat \<Rightarrow> nat \<Rightarrow> nat \<Rightarrow> nat list \<Rightarrow> nat list" where
  "utf8_decoder cp seen needed lower upper [] = (if needed \<noteq> 0 then [0xFFFD] else [])"
| "utf8_decoder cp seen needed lower upper (b # bs) =
     (if needed = 0 then
        (if b \<le> 0x7F then b # utf8_decoder 0 0 0 0x80 0xBF bs
         else if 0xC2 \<le> b \<and> b \<le> 0xDF then utf8_decoder (b mod 32) 0 1 0x80 0xBF bs
         else if 0xE0 \<le> b \<and> b \<le> 0xEF then
           utf8_decoder (b mod 16) 0 2 (if b = 0xE0 then 0xA0 else 0x80)
             (if b = 0xED then 0x9F else 0xBF) bs
         else if 0xF0 \<le> b \<and> b \<le> 0xF4 then
           utf8_decoder (b mod 8) 0 3 (if b = 0xF0 then 0x90 else 0x80)
             (if b = 0xF4 then 0x8F else 0xBF) bs
         else 0xFFFD # utf8_decoder 0 0 0 0x80 0xBF bs)
      else if \<not> (lower \<le> b \<and> b \<le> upper) then
        0xFFFD # utf8_decoder 0 0 0 0x80 0xBF (b # bs)
      else if seen + 1 \<noteq> needed then
        utf8_decoder (cp * 64 + b mod 64) (seen + 1) needed 0x80 0xBF bs
      else (cp * 64 + b mod 64) # utf8_decoder 0 0 0 0x80 0xBF bs)"
  by pat_completeness auto
termination
  by (relation "measure (\<lambda>(cp, seen, needed, lower, upper, bs).
        2 * length bs + (if needed = 0 then 0 else 1))") auto

abbreviation utf8_decode :: "nat list \<Rightarrow> nat list" where
  "utf8_decode \<equiv> utf8_decoder 0 0 0 0x80 0xBF"

definition strip_bom :: "nat list \<Rightarrow> nat list" where
  "strip_bom cps = (case cps of [] \<Rightarrow> [] | c # cs \<Rightarrow> if c = 0xFEFF then cs else c # cs)"

definition TextDecoder_decode :: "nat list \<Rightarrow> jsstring" where
  "TextDecoder_decode bytes =
     concat (map utf16_units (strip_bom (utf8_decode bytes)))"

subsection \<open>Base64\<close>

text \<open>
  A binary string (every code unit below 256) and a base64 text are lists of 8-bit
  characters.  \<open>btoa\<close> is the base64 encoding with padding; \<open>atob\<close> is the forgiving
  decoding of the HTML standard: ASCII whitespace is removed, up to two padding characters
  are removed when the length is a multiple of four, and a remaining length of one modulo
  four or a character outside the alphabet throws (as a code unit above 255 would).  The
  alphabet is \<open>A\<close> to \<open>Z\<close> (codes 65 to 90), \<open>a\<close> to \<open>z\<close> (97 to 122), \<open>0\<close> to \<open>9\<close>
  (48 to 57), \<open>+\<close> and \<open>/\<close>.
\<close>

definition b64_char :: "nat \<Rightarrow> char" where
  "b64_char i =
     (if i < 26 then char_of (65 + i)
      else if i < 52 then char_of (71 + i)
      else if i < 62 then char_of (i - 4)
      else if i = 62 then CHR ''+'' else CHR ''/'')"

definition b64_index :: "char \<Rightarrow> nat option" where
  "b64_index c =
     (let n = of_char c :: nat in
      if 65 \<le> n \<and> n \<le> 90 then Some (n - 65)
      else if 97 \<le> n \<and> n \<le> 122 then Some (n - 71)
      else if 48 \<le> n \<and> n \<le> 57 then Some (n + 4)
      else if c = CHR ''+'' then Some 62
      else if c = CHR ''/'' then Some 63
      else None)"

lemma base64_alphabet_ranges:
  "map b64_char [0, 25, 26, 51, 52, 61, 62, 63] = ''AZaz09+/''"
  by (simp add: b64_char_def char_of_eq_iff)

text \<open>Three bytes are four groups of six bits; one or two last bytes give two or three.\<close>

fun sextets :: "nat list \<Rightarrow> nat list" where
  "sextets (a # b # c # rest) =
     [a div 4, a mod 4 * 16 + b div 16, b mod 16 * 4 + c div 64, c mod 64] @ sextets rest"
| "sextets [a, b] = [a div 4, a mod 4 * 16 + b div 16, b mod 16 * 4]"
| "sextets [a] = [a div 4, a mod 4 * 16]"
| "sextets [] = []"

definition btoa :: "string \<Rightarrow> string" where
  "btoa binary =
     map b64_char (sextets (map of_char binary)) @
     replicate ((3 - length binary mod 3) mod 3) (CHR ''='')"

definition ascii_whitespace :: "char \<Rightarrow> bool" where
  "ascii_whitespace c = (c \<in> set [CHR 0x09, CHR 0x0A, CHR 0x0C, CHR 0x0D, CHR 0x20])"

definition strip_padding :: "string \<Rightarrow> string" where
  "strip_padding d =
     (if length d mod 4 = 0 then
        (case rev d of
           p # q # r \<Rightarrow> if p = CHR ''='' then (if q = CHR ''='' then rev r else rev (q # r)) else d
         | _ \<Rightarrow> d)
      else d)"

fun octets :: "nat list \<Rightarrow> nat list" where
  "octets (p # q # r # s # rest) =
     [p * 4 + q div 16, q mod 16 * 16 + r div 4, r mod 4 * 64 + s] @ octets rest"
| "octets [p, q, r] = [p * 4 + q div 16, q mod 16 * 16 + r div 4]"
| "octets [p, q] = [p * 4 + q div 16]"
| "octets [p] = []"
| "octets [] = []"

definition atob :: "string \<Rightarrow> error + string" where
  "atob data =
     (let d = strip_padding (filter (\<lambda>c. \<not> ascii_whitespace c) data) in
      if length d mod 4 = 1 then Inl InvalidCharacterError
      else (case those (map b64_index d) of
              None \<Rightarrow> Inl InvalidCharacterError
            | Some vs \<Rightarrow> Inr (map char_of (octets vs))))"

subsection \<open>\<open>encodeBase64\<close> and \<open>decodeBase64\<close>\<close>

text \<open>
  The two helpers of \<open>lib/github-api.js\<close>: \<open>String.fromCharCode(byte)\<close> for every byte,
  then \<open>btoa\<close>; and \<open>replace(/\n/g, '')\<close>, \<open>atob\<close>, \<open>charCodeAt\<close> for every
  character, then the decoder.
\<close>

definition encodeBase64 :: "jsstring \<Rightarrow> string" where
  "encodeBase64 str = btoa (map char_of (TextEncoder_encode str))"

definition decodeBase64 :: "string \<Rightarrow> error + jsstring" where
  "decodeBase64 base64 =
     (case atob (filter (\<lambda>c. c \<noteq> CHR 0x0A) base64) of
        Inl e \<Rightarrow> Inl e
      | Inr binary \<Rightarrow> Inr (TextDecoder_decode (map of_char binary)))"

subsection \<open>Base64 decoding inverts encoding\<close>

lemma digit_div: "y < n \<Longrightarrow> (x * n + y) div n = (x::nat)"
  by simp

lemma digit_mod: "y < n \<Longrightarrow> (x * n + y) mod n = (y::nat)"
  by simp

lemma div_lt: "a < n * k \<Longrightarrow> a div n < (k::nat)"
  by (simp add: less_mult_imp_div_less mult.commute)

lemma digit_bound: "x < m \<Longrightarrow> y < n \<Longrightarrow> x * n + y < m * (n::nat)"
proof -
  assume a: "x < m" "y < n"
  then have "x * n + y < x * n + n" by simp
  also have "\<dots> = (x + 1) * n" by simp
  also have "\<dots> \<le> m * n" using a by (intro mult_le_mono1) simp
  finally show ?thesis .
qed

lemma sextets_lt: "\<forall>b \<in> set bs. b < 256 \<Longrightarrow> \<forall>v \<in> set (sextets bs). v < 64"
proof (induction bs rule: sextets.induct)
  case (1 a b c rest)
  then have "a < 256" "b < 256" "c < 256" by simp_all
  then have "a div 4 < 64" "b div 16 < 16" "c div 64 < 4"
    by (simp_all add: div_lt)
  then have "a div 4 < 64" "a mod 4 * 16 + b div 16 < 4 * 16" "b mod 16 * 4 + c div 64 < 16 * 4" "c mod 64 < 64"
    by (simp_all add: digit_bound)
  with 1 show ?case by simp
next
  case (2 a b)
  then have "a < 256" "b < 256" by simp_all
  then have "a div 4 < 64" "b div 16 < 16"
    by (simp_all add: div_lt)
  then have "a div 4 < 64" "a mod 4 * 16 + b div 16 < 4 * 16" "b mod 16 * 4 + 0 < 16 * 4"
    by (simp_all add: digit_bound del: add_0_right)
  then show ?case by simp
next
  case (3 a)
  then have "a < 256" by simp
  then have "a div 4 < 64" "a mod 4 * 16 + 0 < 4 * 16"
    by (simp_all add: div_lt digit_bound del: add_0_right)
  then show ?case by simp
next
  case 4
  then show ?case by simp
qed

lemma octets_sextets: "\<forall>b \<in> set bs. b < 256 \<Longrightarrow> octets (sextets bs) = bs"
proof (induction bs rule: sextets.induct)
  case (1 a b c rest)
  then have "a < 256" "b < 256" "c < 256" by simp_all
  then have "b div 16 < 16" "c div 64 < 4"
    by (simp_all add: div_lt)
  then have "a div 4 * 4 + (a mod 4 * 16 + b div 16) div 16 = a"
    "(a mod 4 * 16 + b div 16) mod 16 * 16 + (b mod 16 * 4 + c div 64) div 4 = b"
    "(b mod 16 * 4 + c div 64) mod 4 * 64 + c mod 64 = c"
    by (simp_all add: digit_div digit_mod)
  with 1 show ?case by simp
next
  case (2 a b)
  then have "a < 256" "b < 256" by simp_all
  then have "b div 16 < 16"
    by (simp_all add: div_lt)
  then have "a div 4 * 4 + (a mod 4 * 16 + b div 16) div 16 = a"
    "(a mod 4 * 16 + b div 16) mod 16 * 16 + (b mod 16 * 4) div 4 = b"
    by (simp_all add: digit_div digit_mod)
  then show ?case by simp
next
  case (3 a)
  then show ?case by simp
next
  case 4
  then show ?case by simp
qed

lemma b64_index_char: "i < 64 \<Longrightarrow> b64_index (b64_char i) = Some i"
proof -
  assume "i < 64"
  consider "i < 26" | "26 \<le> i" "i < 52" | "52 \<le> i" "i < 62" | "i = 62" | "i = 63"
    using \<open>i < 64\<close> by linarith
  then show ?thesis
  proof cases
    case 1
    then have "(65 + i) mod 256 = 65 + i" by simp
    with 1 show ?thesis by (simp add: b64_index_def b64_char_def Let_def)
  next
    case 2
    then have "(71 + i) mod 256 = 71 + i" by simp
    with 2 show ?thesis by (simp add: b64_index_def b64_char_def Let_def)
  next
    case 3
    then have "i = (i - 4) + 4 \<and> 48 \<le> i - 4 \<and> i - 4 \<le> 57"
      by arith
    then obtain j where j: "i = j + 4" "48 \<le> j" "j \<le> 57"
      by blast
    then have "b64_char i = char_of j"
      by (simp add: b64_char_def)
    moreover have "b64_index (char_of j) = Some (j + 4)"
      using j by (simp add: b64_index_def Let_def)
    ultimately show ?thesis using j by simp
  next
    case 4
    then show ?thesis by (simp add: b64_index_def b64_char_def Let_def)
  next
    case 5
    then show ?thesis by (simp add: b64_index_def b64_char_def Let_def)
  qed
qed

lemma b64_char_plain: "i < 64 \<Longrightarrow> \<not> ascii_whitespace (b64_char i) \<and> b64_char i \<noteq> CHR ''=''"
proof -
  assume "i < 64"
  then have "b64_index (b64_char i) = Some i"
    by (rule b64_index_char)
  moreover have "b64_index c = None" if "ascii_whitespace c \<or> c = CHR ''=''" for c
    using that by (auto simp: ascii_whitespace_def b64_index_def)
  ultimately show ?thesis by fastforce
qed

lemma those_b64_index:
  "\<forall>v \<in> set vs. v < 64 \<Longrightarrow> those (map (b64_index \<circ> b64_char) vs) = Some vs"
  by (induction vs) (simp_all add: b64_index_char)

lemma filter_b64_chars:
  "\<forall>v \<in> set vs. v < 64 \<Longrightarrow>
   filter (\<lambda>c. \<not> ascii_whitespace c) (map b64_char vs @ replicate k (CHR ''='')) =
     map b64_char vs @ replicate k (CHR ''='')"
proof -
  assume a: "\<forall>v \<in> set vs. v < 64"
  have "\<not> ascii_whitespace (CHR ''='')"
    by (simp add: ascii_whitespace_def)
  with a show ?thesis
    by (simp add: filter_id_conv b64_char_plain)
qed

lemma strip_padding_encoded:
  assumes vs: "\<forall>v \<in> set vs. v < 64"
    and len: "(length vs + k) mod 4 = 0"
    and k: "k = 0 \<or> k = 1 \<and> vs \<noteq> [] \<or> k = 2"
  shows "strip_padding (map b64_char vs @ replicate k (CHR ''='')) = map b64_char vs"
proof -
  have ne: "b64_char v \<noteq> CHR ''=''" if "v \<in> set vs" for v
    using that vs b64_char_plain by blast
  from k consider (zero) "k = 0" | (one) "k = 1" "vs \<noteq> []" | (two) "k = 2"
    by blast
  then show ?thesis
  proof cases
    case zero
    show ?thesis
    proof (cases vs rule: rev_cases)
      case Nil
      with zero show ?thesis by (simp add: strip_padding_def)
    next
      case (snoc ys y)
      with ne have "b64_char y \<noteq> CHR ''=''" by simp
      with snoc zero show ?thesis
        by (cases ys rule: rev_cases) (simp_all add: strip_padding_def)
    qed
  next
    case one
    then obtain ys y where ys: "vs = ys @ [y]"
      by (meson rev_exhaust)
    with ne have "b64_char y \<noteq> CHR ''=''" by simp
    with ys one len show ?thesis
      by (simp add: strip_padding_def)
  next
    case two
    then have "replicate k (CHR ''='') = [CHR ''='', CHR ''='']"
      by (simp add: numeral_2_eq_2)
    with two len show ?thesis
      by (simp add: strip_padding_def)
  qed
qed

lemma length_sextets:
  "length (sextets bs) + (3 - length bs mod 3) mod 3 = 4 * ((length bs + 2) div 3)"
proof (induction bs rule: sextets.induct)
  case (1 a b c rest)
  have "(3 + length rest + 2) div 3 = Suc ((length rest + 2) div 3)"
    by simp
  with 1 show ?case by (simp add: algebra_simps)
qed simp_all

lemma atob_btoa:
  assumes "\<forall>b \<in> set bytes. b < (256::nat)"
  shows "atob (btoa (map char_of bytes)) = Inr (map char_of bytes)"
proof -
  let ?vs = "sextets bytes"
  let ?k = "(3 - length bytes mod 3) mod 3"
  have unchar: "map (of_char \<circ> (char_of :: nat \<Rightarrow> char)) bytes = bytes"
    using assms by (simp add: map_idI)
  have vs: "\<forall>v \<in> set ?vs. v < 64"
    using assms by (rule sextets_lt)
  have len: "(length ?vs + ?k) mod 4 = 0"
    by (simp add: length_sextets)
  have k: "?k = 0 \<or> ?k = 1 \<and> ?vs \<noteq> [] \<or> ?k = 2"
  proof (cases bytes)
    case Nil
    then show ?thesis by simp
  next
    case (Cons b bs)
    then have "?vs \<noteq> []"
      by (cases bs rule: sextets.cases) simp_all
    moreover have "length bytes mod 3 < 3"
      by simp
    then have "length bytes mod 3 = 0 \<or> length bytes mod 3 = 1 \<or> length bytes mod 3 = 2"
      by linarith
    then have "?k = 0 \<or> ?k = 1 \<or> ?k = 2"
      by auto
    ultimately show ?thesis by blast
  qed
  have enc: "btoa (map char_of bytes) = map b64_char ?vs @ replicate ?k (CHR ''='')"
    by (simp add: btoa_def unchar)
  have stripped: "strip_padding (filter (\<lambda>c. \<not> ascii_whitespace c) (btoa (map char_of bytes))) =
      map b64_char ?vs"
    unfolding enc filter_b64_chars [OF vs] by (rule strip_padding_encoded [OF vs len k])
  have not1: "length ?vs mod 4 \<noteq> 1"
  proof
    assume "length ?vs mod 4 = 1"
    then have "(1 + ?k) mod 4 = (length ?vs + ?k) mod 4"
      by (metis mod_add_left_eq)
    with len have "(1 + ?k) mod 4 = 0"
      by simp
    moreover from k have "?k = 0 \<or> ?k = 1 \<or> ?k = 2"
      by blast
    ultimately show False
      by auto
  qed
  show ?thesis
    using not1 by (simp add: atob_def stripped those_b64_index [OF vs] octets_sextets [OF assms])
qed

subsection \<open>UTF-8 decoding inverts encoding\<close>

text \<open>A scalar value is a code point that is not a surrogate.\<close>

definition scalar :: "nat \<Rightarrow> bool" where
  "scalar c = (c < 0x110000 \<and> \<not> (0xD800 \<le> c \<and> c \<le> 0xDFFF))"

lemma mod_offset: "k mod n = 0 \<Longrightarrow> x < n \<Longrightarrow> (k + x) mod n = (x::nat)"
proof -
  assume a: "k mod n = 0" "x < n"
  have "(k + x) mod n = (k mod n + x) mod n"
    by (simp add: mod_add_left_eq)
  with a show ?thesis by simp
qed

lemma decode1: "x < 128 \<Longrightarrow> utf8_decode (x # rest) = x # utf8_decode rest"
  by simp

lemma decode2:
  assumes "2 \<le> x" "x < 32" "y < 64"
  shows "utf8_decode ((0xC0 + x) # (0x80 + y) # rest) = (x * 64 + y) # utf8_decode rest"
proof -
  have "(192 + x) mod 32 = x" "(128 + y) mod 64 = y"
    using assms by (simp_all add: mod_offset)
  with assms show ?thesis by simp
qed

lemma decode3:
  assumes "x < 16" "y < 64" "z < 64" "x = 0 \<longrightarrow> 32 \<le> y" "x = 13 \<longrightarrow> y < 32"
  shows "utf8_decode ((0xE0 + x) # (0x80 + y) # (0x80 + z) # rest) = (x * 4096 + y * 64 + z) # utf8_decode rest"
proof -
  have "(224 + x) mod 16 = x" "(128 + y) mod 64 = y" "(128 + z) mod 64 = z"
    using assms by (simp_all add: mod_offset)
  with assms show ?thesis by auto
qed

lemma decode4:
  assumes "w < 5" "x < 64" "y < 64" "z < 64" "w = 0 \<longrightarrow> 16 \<le> x" "w = 4 \<longrightarrow> x < 16"
  shows "utf8_decode ((0xF0 + w) # (0x80 + x) # (0x80 + y) # (0x80 + z) # rest) =
         (w * 262144 + x * 4096 + y * 64 + z) # utf8_decode rest"
proof -
  have "(240 + w) mod 8 = w" "(128 + x) mod 64 = x" "(128 + y) mod 64 = y" "(128 + z) mod 64 = z"
    using assms by (simp_all add: mod_offset)
  with assms show ?thesis by auto
qed

lemma utf8_bytes_decoded:
  assumes "scalar c"
  shows "utf8_decode (utf8_bytes c @ rest) = c # utf8_decode rest"
proof -
  from assms have lt: "c < 0x110000" and ns: "\<not> (0xD800 \<le> c \<and> c \<le> 0xDFFF)"
    by (simp_all add: scalar_def)
  define z where "z = c mod 64"
  define y where "y = c div 64 mod 64"
  define x where "x = c div 4096 mod 64"
  define w where "w = c div 262144"
  have z: "z < 64" and y: "y < 64" and x: "x < 64"
    by (simp_all add: z_def y_def x_def)
  have c1: "c = c div 64 * 64 + z"
    by (simp add: z_def)
  have "c div 64 = c div 64 div 64 * 64 + y"
    by (simp add: y_def)
  moreover have d2: "c div 64 div 64 = c div 4096"
    by (simp add: div_mult2_eq [symmetric])
  ultimately have c2: "c div 64 = c div 4096 * 64 + y"
    by simp
  have "c div 4096 = c div 4096 div 64 * 64 + x"
    by (simp add: x_def)
  moreover have "c div 4096 div 64 = c div 262144"
    by (simp add: div_mult2_eq [symmetric])
  ultimately have c3: "c div 4096 = w * 64 + x"
    by (simp add: w_def)
  consider (one) "c < 0x80" | (two) "0x80 \<le> c" "c < 0x800"
    | (three) "0x800 \<le> c" "c < 0x10000" | (four) "0x10000 \<le> c"
    by linarith
  then show ?thesis
  proof cases
    case one
    then show ?thesis
      by (simp add: utf8_bytes_def)
  next
    case two
    with c1 z have "2 \<le> c div 64" "c div 64 < 32"
      by linarith+
    then have "utf8_decode ((0xC0 + c div 64) # (0x80 + z) # rest) = (c div 64 * 64 + z) # utf8_decode rest"
      using z by (rule decode2)
    with two c1 show ?thesis
      by (simp add: utf8_bytes_def z_def)
  next
    case three
    with c1 c2 z y have "c div 4096 < 16" "c div 4096 = 0 \<longrightarrow> 32 \<le> y"
      by linarith+
    moreover from ns c1 c2 z y have "c div 4096 = 13 \<longrightarrow> y < 32"
      by linarith
    ultimately have "utf8_decode ((0xE0 + c div 4096) # (0x80 + y) # (0x80 + z) # rest) =
        (c div 4096 * 4096 + y * 64 + z) # utf8_decode rest"
      using y z by (intro decode3)
    moreover from c1 c2 have "c div 4096 * 4096 + y * 64 + z = c"
      by linarith
    ultimately show ?thesis
      using three by (simp add: utf8_bytes_def z_def y_def)
  next
    case four
    with lt c1 c2 c3 z y x have "w < 5" "w = 0 \<longrightarrow> 16 \<le> x" "w = 4 \<longrightarrow> x < 16"
      by linarith+
    then have "utf8_decode ((0xF0 + w) # (0x80 + x) # (0x80 + y) # (0x80 + z) # rest) =
        (w * 262144 + x * 4096 + y * 64 + z) # utf8_decode rest"
      using x y z by (intro decode4)
    moreover from c1 c2 c3 have "w * 262144 + x * 4096 + y * 64 + z = c"
      by linarith
    ultimately show ?thesis
      using four by (simp add: utf8_bytes_def z_def y_def x_def w_def)
  qed
qed

lemma utf8_decoded:
  "\<forall>c \<in> set cs. scalar c \<Longrightarrow> utf8_decode (concat (map utf8_bytes cs)) = cs"
  by (induction cs) (simp_all add: utf8_bytes_decoded)

subsection \<open>Well-formed strings survive the round trip\<close>

lemma utf8_bytes_lt: "scalar c \<Longrightarrow> \<forall>b \<in> set (utf8_bytes c). b < 256"
proof -
  assume "scalar c"
  then have lt: "c < 0x110000"
    by (simp add: scalar_def)
  have m: "c mod 64 < 64" "c div 64 mod 64 < 64" "c div 4096 mod 64 < 64"
    by simp_all
  have a: "c < 0x800 \<Longrightarrow> c div 64 < 32" "c < 0x10000 \<Longrightarrow> c div 4096 < 16"
    by (simp_all add: div_lt)
  from lt have b: "c div 262144 < 5"
    by (simp add: div_lt)
  show ?thesis
    using m a b by (auto simp: utf8_bytes_def)
qed

lemma is_high_nat: "is_high c \<longleftrightarrow> 0xD800 \<le> unat c \<and> unat c \<le> 0xDBFF"
  by (simp add: is_high_def word_le_nat_alt)

lemma is_low_nat: "is_low c \<longleftrightarrow> 0xDC00 \<le> unat c \<and> unat c \<le> 0xDFFF"
  by (simp add: is_low_def word_le_nat_alt)

lemma unit_lt: "unat (c :: 16 word) < 65536"
  using unsigned_less [of c] by simp

lemma unit_scalar: "\<not> is_high c \<Longrightarrow> \<not> is_low c \<Longrightarrow> scalar (unat c)"
  using unit_lt [of c] by (auto simp: scalar_def is_high_nat is_low_nat)

lemma unit_units: "utf16_units (unat c) = [c]"
  using unit_lt [of c] by (simp add: utf16_units_def)

lemma pair_scalar: "is_high hi \<Longrightarrow> is_low lo \<Longrightarrow> scalar (pair_code_point hi lo)"
proof -
  assume "is_high hi" "is_low lo"
  then have h: "0xD800 \<le> unat hi" "unat hi \<le> 0xDBFF" and l: "0xDC00 \<le> unat lo" "unat lo \<le> 0xDFFF"
    by (simp_all add: is_high_nat is_low_nat)
  define a where "a = unat hi - 0xD800"
  define b where "b = unat lo - 0xDC00"
  from h l have "a < 1024" "b < 1024"
    by (simp_all add: a_def b_def)
  then have "a * 1024 + b < 1024 * 1024"
    by (rule digit_bound)
  then show ?thesis
    by (simp add: scalar_def pair_code_point_def a_def b_def)
qed

lemma pair_units: "is_high hi \<Longrightarrow> is_low lo \<Longrightarrow> utf16_units (pair_code_point hi lo) = [hi, lo]"
proof -
  assume "is_high hi" "is_low lo"
  then have h: "0xD800 \<le> unat hi" "unat hi \<le> 0xDBFF" and l: "0xDC00 \<le> unat lo" "unat lo \<le> 0xDFFF"
    by (simp_all add: is_high_nat is_low_nat)
  define a where "a = unat hi - 0xD800"
  define b where "b = unat lo - 0xDC00"
  from h l have ab: "b < 1024" "0xD800 + a = unat hi" "0xDC00 + b = unat lo"
    by (simp_all add: a_def b_def)
  have p: "pair_code_point hi lo = 0x10000 + (a * 1024 + b)"
    by (simp add: pair_code_point_def a_def b_def)
  have "(a * 1024 + b) div 1024 = a" "(a * 1024 + b) mod 1024 = b"
    using ab(1) by (simp_all add: digit_div digit_mod)
  then show ?thesis
    using ab by (simp add: utf16_units_def p)
qed

lemma scalar_values_well_formed:
  "well_formed s \<Longrightarrow>
   (\<forall>c \<in> set (scalar_values s). scalar c) \<and> concat (map utf16_units (scalar_values s)) = s"
proof (induction s rule: scalar_values.induct)
  case 1
  then show ?case by simp
next
  case (2 c cs)
  show ?case
  proof (cases "is_high c")
    case True
    with "2.prems" obtain d ds where cs: "cs = d # ds" and d: "is_low d" and ds: "well_formed ds"
      by (auto split: list.splits)
    from "2.IH"(1) [OF True cs d ds] True d cs show ?thesis
      by (simp add: pair_scalar pair_units)
  next
    case False
    with "2.prems" have low: "\<not> is_low c" and wf: "well_formed cs"
      by simp_all
    from "2.IH"(4) [OF False low wf] False low show ?thesis
      by (simp add: unit_scalar unit_units)
  qed
qed

lemma strip_bom_well_formed:
  assumes "well_formed s" and "\<not> prefix [0xFEFF] s"
  shows "strip_bom (scalar_values s) = scalar_values s"
proof (cases s)
  case Nil
  then show ?thesis by (simp add: strip_bom_def)
next
  case (Cons c cs)
  with assms(2) have ne: "c \<noteq> 0xFEFF" by simp
  show ?thesis
  proof (cases "is_high c")
    case True
    with assms(1) Cons obtain d ds where cs: "cs = d # ds" and d: "is_low d"
      by (auto split: list.splits)
    from pair_scalar [OF True d] have "pair_code_point c d \<noteq> 0xFEFF"
      by (simp add: pair_code_point_def)
    with True d cs Cons show ?thesis
      by (simp add: strip_bom_def)
  next
    case False
    with assms(1) Cons have low: "\<not> is_low c" by simp
    have "unat c \<noteq> 0xFEFF"
    proof
      assume "unat c = 0xFEFF"
      then have "(of_nat (unat c) :: 16 word) = of_nat 0xFEFF"
        by simp
      with ne show False by simp
    qed
    with False low Cons show ?thesis
      by (simp add: strip_bom_def)
  qed
qed

lemma btoa_no_newline:
  "filter (\<lambda>c. c \<noteq> CHR 0x0A) (btoa binary) = btoa binary"
proof -
  have vs: "\<forall>v \<in> set (sextets (map of_char binary)). v < 64"
    by (rule sextets_lt) simp
  have ws: "ascii_whitespace (CHR 0x0A)"
    by (simp add: ascii_whitespace_def)
  have "b64_char v \<noteq> CHR 0x0A" if "v \<in> set (sextets (map of_char binary))" for v
  proof -
    from that vs have "\<not> ascii_whitespace (b64_char v)"
      using b64_char_plain by blast
    with ws show ?thesis by metis
  qed
  note plain = this
  have "c \<noteq> CHR 0x0A" if "c \<in> set (btoa binary)" for c
  proof -
    from that consider v where "v \<in> set (sextets (map of_char binary))" "c = b64_char v"
      | "c = CHR ''=''"
      by (auto simp: btoa_def)
    then show ?thesis
    proof cases
      case 1
      then show ?thesis using plain by simp
    next
      case 2
      then show ?thesis by simp
    qed
  qed
  then show ?thesis
    by (simp add: filter_id_conv)
qed

lemma decodeBase64_encodeBase64:
  assumes "well_formed s" and "\<not> prefix [0xFEFF] s"
  shows "decodeBase64 (encodeBase64 s) = Inr s"
proof -
  let ?bytes = "TextEncoder_encode s"
  from scalar_values_well_formed [OF assms(1)]
  have sc: "\<forall>c \<in> set (scalar_values s). scalar c"
    and units: "concat (map utf16_units (scalar_values s)) = s"
    by simp_all
  from sc have lt: "\<forall>b \<in> set ?bytes. b < 256"
    by (auto simp: TextEncoder_encode_def dest: utf8_bytes_lt)
  have enc: "encodeBase64 s = btoa (map char_of ?bytes)"
    by (simp add: encodeBase64_def)
  have nl: "filter (\<lambda>c. c \<noteq> CHR 0x0A) (btoa (map char_of ?bytes)) = btoa (map char_of ?bytes)"
    by (rule btoa_no_newline)
  have unchar: "map (of_char \<circ> (char_of :: nat \<Rightarrow> char)) ?bytes = ?bytes"
    using lt by (simp add: map_idI)
  have "utf8_decode ?bytes = scalar_values s"
    unfolding TextEncoder_encode_def using sc by (rule utf8_decoded)
  then have "TextDecoder_decode ?bytes = s"
    by (simp add: TextDecoder_decode_def strip_bom_well_formed [OF assms] units)
  then show ?thesis
    by (simp add: decodeBase64_def enc nl atob_btoa [OF lt] unchar)
qed

text \<open>Evaluating the two helpers on concrete strings.\<close>

lemmas encode_eval = encodeBase64_def TextEncoder_encode_def is_high_def is_low_def
  utf8_bytes_def btoa_def b64_char_def pair_code_point_def char_of_eq_iff

lemmas decode_eval = decodeBase64_def atob_def ascii_whitespace_def strip_padding_def
  b64_index_def TextDecoder_decode_def strip_bom_def utf16_units_def Let_def

text \<open>
  C9 (as stated).  \<open>decodeBase64(encodeBase64(s)) = s\<close> for every string \<open>s\<close>.  It fails
  for a string with an unpaired surrogate, which the encoder replaces by \<open>U+FFFD\<close>, and
  for a string that begins with \<open>U+FEFF\<close>, which the decoder drops as a byte order mark.
\<close>

theorem base64_roundtrip_loses_surrogate_and_bom:
  "decodeBase64 (encodeBase64 [0xD800]) = Inr [0xFFFD] \<and>
   decodeBase64 (encodeBase64 [0xFEFF, 0x41]) = Inr [0x41]"
proof -
  have "encodeBase64 [0xD800] = ''77+9''"
    by (simp add: encode_eval)
  moreover have "decodeBase64 ''77+9'' = Inr [0xFFFD]"
    by (simp add: decode_eval)
  moreover have "encodeBase64 [0xFEFF, 0x41] = ''77u/QQ==''"
    by (simp add: encode_eval) (simp add: numeral_2_eq_2)
  moreover have "decodeBase64 ''77u/QQ=='' = Inr [0x41]"
    by (simp add: decode_eval)
  ultimately show ?thesis by simp
qed

text \<open>
  C9 (amended).  For every well-formed string \<open>s\<close> (no unpaired surrogate) that does not
  begin with \<open>U+FEFF\<close>, non-ASCII characters included, \<open>decodeBase64(encodeBase64(s)) = s\<close>.
  Newline characters in the base64 input do not change the decoded result: an input decodes
  as the same input without its newlines does.
\<close>

theorem base64_roundtrip_well_formed:
  "(well_formed s \<and> \<not> prefix [0xFEFF] s \<longrightarrow> decodeBase64 (encodeBase64 s) = Inr s) \<and>
   decodeBase64 base64 = decodeBase64 (filter (\<lambda>c. c \<noteq> CHR 0x0A) base64) \<and>
   (well_formed s \<and> \<not> prefix [0xFEFF] s \<and> filter (\<lambda>c. c \<noteq> CHR 0x0A) base64 = encodeBase64 s
      \<longrightarrow> decodeBase64 base64 = Inr s)"
proof -
  have rt: "decodeBase64 (encodeBase64 s) = Inr s" if "well_formed s" "\<not> prefix [0xFEFF] s"
    using that by (rule decodeBase64_encodeBase64)
  have nl: "decodeBase64 b = decodeBase64 (filter (\<lambda>c. c \<noteq> CHR 0x0A) b)" for b
    by (simp add: decodeBase64_def)
  have "decodeBase64 base64 = Inr s"
    if "well_formed s" "\<not> prefix [0xFEFF] s" "filter (\<lambda>c. c \<noteq> CHR 0x0A) base64 = encodeBase64 s"
    using that rt nl [of base64] by simp
  with rt nl [of base64] show ?thesis by blast
qed

theorem base64_roundtrip_well_formed_witness:
  "well_formed [0xE4, 0x20AC, 0xD83D, 0xDE00] \<and>
   \<not> prefix [0xFEFF] [0xE4 :: 16 word, 0x20AC, 0xD83D, 0xDE00] \<and>
   encodeBase64 [0xE4, 0x20AC, 0xD83D, 0xDE00] = ''w6Tigqzwn5iA'' \<and>
   decodeBase64 ''w6Tigqzwn5iA'' = Inr [0xE4, 0x20AC, 0xD83D, 0xDE00] \<and>
   decodeBase64 (''w6Tigq'' @ [CHR 0x0A] @ ''zwn5iA'' @ [CHR 0x0A]) = Inr [0xE4, 0x20AC, 0xD83D, 0xDE00]"
proof -
  let ?s = "[0xE4, 0x20AC, 0xD83D, 0xDE00] :: jsstring"
  let ?b = "''w6Tigq'' @ [CHR 0x0A] @ ''zwn5iA'' @ [CHR 0x0A]"
  have wf: "well_formed ?s"
    by (simp add: is_high_def is_low_def)
  have nb: "\<not> prefix [0xFEFF] ?s"
    by simp
  have enc: "encodeBase64 ?s = ''w6Tigqzwn5iA''"
    by (simp add: encode_eval)
  have fl: "filter (\<lambda>c. c \<noteq> CHR 0x0A) ?b = encodeBase64 ?s"
    by (simp add: enc)
  from wf nb fl base64_roundtrip_well_formed [of ?s ?b]
  have "decodeBase64 (encodeBase64 ?s) = Inr ?s \<and> decodeBase64 ?b = Inr ?s"
    by blast
  with wf nb enc show ?thesis by simp
qed

section \<open>Reading a file\<close>

record GitHubAPI =
  token :: string
  owner :: string
  repo :: string
  branch :: string

definition API_BASE :: string where
  "API_BASE = ''https://api.github.com''"

definition contents_url :: "GitHubAPI \<Rightarrow> string \<Rightarrow> string" where
  "contents_url api path =
     API_BASE @ ''/repos/'' @ owner api @ ''/'' @ repo api @ ''/contents/'' @ path @
     ''?ref='' @ branch api"

record repo_file =
  content :: jsstring
  sha :: "string option"

text \<open>
  \<open>GitHubAPI.getFile\<close>.  The store is the function \<open>fetch\<close> from the URL of a request to
  its response; \<open>Inr None\<close> is the returned \<open>null\<close>.  After an ok response,
  \<open>response.json()\<close> rejects on a body that is not JSON, \<open>decodeBase64(undefined)\<close>
  throws a \<open>TypeError\<close>, and \<open>atob\<close> throws on text that is not base64.
\<close>

definition getFile ::
  "(string \<Rightarrow> nat list \<Rightarrow> string) \<Rightarrow> (string \<Rightarrow> response) \<Rightarrow> GitHubAPI \<Rightarrow> string
    \<Rightarrow> error + repo_file option" where
  "getFile getMessage fetch api path =
     (case GitHubAPI_fetch getMessage (fetch (contents_url api path)) of
        Inl e \<Rightarrow> Inl e
      | Inr response \<Rightarrow>
          if status response = 404 then Inr None
          else if \<not> ok response then
            Inl (GitHubError (getMessage ''api_errorReading'' [status response]) (status response))
          else
            (case body response of
               None \<Rightarrow> Inl SyntaxError
             | Some data \<Rightarrow>
                 (case body_content data of
                    None \<Rightarrow> Inl TypeError
                  | Some base64 \<Rightarrow>
                      (case decodeBase64 base64 of
                         Inl e \<Rightarrow> Inl e
                       | Inr decoded \<Rightarrow> Inr (Some \<lparr>content = decoded, sha = body_sha data\<rparr>)))))"

text \<open>
  C6.  Let \<open>r\<close> be the store's answer for the path.  \<open>getFile\<close> returns \<open>null\<close> exactly
  when \<open>r\<close> has status 404.  On a successful read (an ok response whose body carries
  base64 content) it returns the decoded content with the body's \<open>sha\<close>.  On every non-ok
  response other than 404 it raises an error.  Whenever it returns a file, the response
  was ok and the content is the decoding of the body's content, so a missing file never
  yields content.
\<close>

theorem getFile_null_iff_404:
  "(getFile gm fetch api path = Inr None \<longleftrightarrow> status (fetch (contents_url api path)) = 404) \<and>
   (ok (fetch (contents_url api path)) \<and> body (fetch (contents_url api path)) = Some data \<and>
    body_content data = Some base64 \<and> decodeBase64 base64 = Inr decoded \<longrightarrow>
      getFile gm fetch api path = Inr (Some \<lparr>content = decoded, sha = body_sha data\<rparr>)) \<and>
   (\<not> ok (fetch (contents_url api path)) \<and> status (fetch (contents_url api path)) \<noteq> 404 \<longrightarrow>
      (\<exists>e. getFile gm fetch api path = Inl e)) \<and>
   (getFile gm fetch api path = Inr (Some f) \<longrightarrow>
      ok (fetch (contents_url api path)) \<and>
      (\<exists>d b. body (fetch (contents_url api path)) = Some d \<and> body_content d = Some b \<and>
             decodeBase64 b = Inr (content f)))"
proof -
  let ?r = "fetch (contents_url api path)"
  have pass: "GitHubAPI_fetch gm ?r = Inr ?r" if "ok ?r \<or> status ?r = 404"
    using that by (auto simp: GitHubAPI_fetch_def ok_def)
  have 1: "getFile gm fetch api path = Inr None \<longleftrightarrow> status ?r = 404"
    by (auto simp: getFile_def GitHubAPI_fetch_def split: option.splits sum.splits)
  have 2: "getFile gm fetch api path = Inr (Some \<lparr>content = decoded, sha = body_sha data\<rparr>)"
    if "ok ?r" "body ?r = Some data" "body_content data = Some base64"
      "decodeBase64 base64 = Inr decoded"
  proof -
    from that(1) have "status ?r \<noteq> 404"
      by (simp add: ok_def)
    with that pass show ?thesis
      by (simp add: getFile_def)
  qed
  have 3: "\<exists>e. getFile gm fetch api path = Inl e" if "\<not> ok ?r" "status ?r \<noteq> 404"
    using that by (simp add: getFile_def GitHubAPI_fetch_def)
  have 4: "ok ?r \<and> (\<exists>d b. body ?r = Some d \<and> body_content d = Some b \<and>
      decodeBase64 b = Inr (content f))"
    if "getFile gm fetch api path = Inr (Some f)"
    using that
    by (auto simp: getFile_def GitHubAPI_fetch_def split: option.splits sum.splits if_splits)
  from 1 2 3 4 show ?thesis by blast
qed

text \<open>A store with one file, \<open>bookmarks.json\<close>, holding the text \<open>Hi\<close>.\<close>

definition example_api :: GitHubAPI where
  "example_api = \<lparr>token = ''t'', owner = ''o'', repo = ''r'', branch = ''main''\<rparr>"

definition example_store :: "string \<Rightarrow> response" where
  "example_store url =
     (if url = ''https://api.github.com/repos/o/r/contents/bookmarks.json?ref=main'' then
        \<lparr>status = 200,
         body = Some \<lparr>body_message = None, body_content = Some (''SGk='' @ [CHR 0x0A]),
                      body_sha = Some ''3b18e512''\<rparr>\<rparr>
      else if url = ''https://api.github.com/repos/o/r/contents/secret.json?ref=main'' then
        \<lparr>status = 500, body = None\<rparr>
      else \<lparr>status = 404, body = None\<rparr>)"

theorem getFile_null_iff_404_witness:
  "getFile (\<lambda>key args. key) example_store example_api ''bookmarks.json'' =
     Inr (Some \<lparr>content = [0x48, 0x69], sha = Some ''3b18e512''\<rparr>) \<and>
   getFile (\<lambda>key args. key) example_store example_api ''missing.json'' = Inr None \<and>
   getFile (\<lambda>key args. key) example_store example_api ''secret.json'' =
     Inl (GitHubError ''api_errorReading'' 500)"
proof -
  let ?gm = "\<lambda>(key :: string) (args :: nat list). key"
  let ?data = "\<lparr>body_message = None, body_content = Some (''SGk='' @ [CHR 0x0A]),
                      body_sha = Some ''3b18e512''\<rparr>"
  have url: "contents_url example_api ''bookmarks.json'' =
      ''https://api.github.com/repos/o/r/contents/bookmarks.json?ref=main''"
    "contents_url example_api ''missing.json'' =
      ''https://api.github.com/repos/o/r/contents/missing.json?ref=main''"
    "contents_url example_api ''secret.json'' =
      ''https://api.github.com/repos/o/r/contents/secret.json?ref=main''"
    by (simp_all add: contents_url_def example_api_def API_BASE_def)
  have dec: "decodeBase64 (''SGk='' @ [CHR 0x0A]) = Inr [0x48, 0x69]"
    by (simp add: decode_eval)
  have h1: "ok (example_store (contents_url example_api ''bookmarks.json'')) \<and>
      body (example_store (contents_url example_api ''bookmarks.json'')) = Some ?data \<and>
      body_content ?data = Some (''SGk='' @ [CHR 0x0A])"
    by (simp add: url example_store_def ok_def)
  have h2: "status (example_store (contents_url example_api ''missing.json'')) = 404"
    by (simp add: url example_store_def)
  from h1 dec getFile_null_iff_404 [where fetch = example_store and api = example_api
      and path = "''bookmarks.json''" and data = ?data and gm = ?gm]
  have 1: "getFile ?gm example_store example_api ''bookmarks.json'' =
      Inr (Some \<lparr>content = [0x48, 0x69], sha = body_sha ?data\<rparr>)"
    by blast
  from h2 getFile_null_iff_404 [where fetch = example_store and api = example_api
      and path = "''missing.json''" and gm = ?gm]
  have 2: "getFile ?gm example_store example_api ''missing.json'' = Inr None"
    by blast
  have 3: "getFile ?gm example_store example_api ''secret.json'' =
      Inl (GitHubError ''api_errorReading'' 500)"
    by (simp add: getFile_def GitHubAPI_fetch_def url example_store_def ok_def)
  from 1 2 3 show ?thesis by simp
qed

section \<open>Bookmark serializer\<close>

text \<open>
  A browser's bookmark node has a title, an optional creation time (milliseconds, an
  integer), a URL when it is a link and children when it is a folder.
\<close>

datatype BookmarkTreeNode =
  BookmarkTreeNode (title: jsstring) (dateAdded: "int option") (url: "jsstring option")
    (children: "BookmarkTreeNode list option")

text \<open>
  The object \<open>serializeNode\<close> builds: \<open>{title, dateAdded, type: 'bookmark', url}\<close> or
  \<open>{title, dateAdded, type: 'folder', children}\<close>; the constructor is the \<open>type\<close> property.
\<close>

datatype serialized =
    Bookmark jsstring "int option" jsstring
  | Folder jsstring "int option" "serialized list"

text \<open>\<open>if (node.url)\<close> holds for a defined, non-empty string; \<open>node.children || []\<close>.\<close>

fun serializeNode :: "BookmarkTreeNode \<Rightarrow> serialized" where
  "serializeNode (BookmarkTreeNode t d u cs) =
     (case u of
        Some (c # rest) \<Rightarrow> Bookmark t d (c # rest)
      | _ \<Rightarrow> Folder t d (case cs of None \<Rightarrow> [] | Some l \<Rightarrow> map serializeNode l))"

text \<open>
  Bookmark data: the object \<open>serializeToJson\<close> returns, or one parsed from a file of the
  repository, where \<open>version\<close> may be anything and \<open>bookmarks\<close> may be missing.
\<close>

datatype js_value = JUndefined | JNumber int | JString jsstring

record bookmark_data =
  version :: js_value
  exportedAt :: jsstring
  deviceId :: jsstring
  bookmarks :: "serialized list option"

text \<open>\<open>bookmarkTree[0]?.children || []\<close>\<close>

definition rootChildren :: "BookmarkTreeNode list \<Rightarrow> BookmarkTreeNode list" where
  "rootChildren bookmarkTree =
     (case bookmarkTree of
        [] \<Rightarrow> []
      | root # others \<Rightarrow> (case children root of None \<Rightarrow> [] | Some cs \<Rightarrow> cs))"

text \<open>\<open>serializeToJson\<close>; the first argument is \<open>new Date().toISOString()\<close> at the call.\<close>

definition serializeToJson :: "jsstring \<Rightarrow> BookmarkTreeNode list \<Rightarrow> jsstring \<Rightarrow> bookmark_data" where
  "serializeToJson now bookmarkTree device =
     \<lparr>version = JNumber 1, exportedAt = now, deviceId = device,
      bookmarks = Some (map serializeNode (rootChildren bookmarkTree))\<rparr>"

text \<open>
  \<open>deserializeFromJson\<close>; the argument is \<open>None\<close> for \<open>null\<close> or \<open>undefined\<close>.  An array,
  also the empty one, is truthy, and \<open>!==\<close> compares without conversion.
\<close>

datatype format_error = InvalidBookmarkFormat

definition deserializeFromJson :: "bookmark_data option \<Rightarrow> format_error + serialized list" where
  "deserializeFromJson data =
     (case data of
        None \<Rightarrow> Inl InvalidBookmarkFormat
      | Some d \<Rightarrow>
          (case bookmarks d of
             None \<Rightarrow> Inl InvalidBookmarkFormat
           | Some bs \<Rightarrow> if version d \<noteq> JNumber 1 then Inl InvalidBookmarkFormat else Inr bs))"

text \<open>
  C10.  \<open>deserializeFromJson\<close> throws exactly when the data is absent, its \<open>bookmarks\<close> are
  absent or its \<open>version\<close> is not the number 1; otherwise it returns \<open>bookmarks\<close> unchanged.
  Applied to \<open>serializeToJson(t, d)\<close> it returns the serialized children of the root of \<open>t\<close>.
\<close>

theorem deserialize_throws_exactly:
  "((\<exists>err. deserializeFromJson data = Inl err) \<longleftrightarrow>
      data = None \<or> (\<exists>d. data = Some d \<and> (bookmarks d = None \<or> version d \<noteq> JNumber 1))) \<and>
   (bookmarks d = Some bs \<and> version d = JNumber 1 \<longrightarrow> deserializeFromJson (Some d) = Inr bs) \<and>
   deserializeFromJson (Some (serializeToJson now t device)) =
     Inr (map serializeNode (rootChildren t))"
  by (auto simp: deserializeFromJson_def serializeToJson_def split: option.splits)

theorem deserialize_throws_exactly_witness:
  "deserializeFromJson
     (Some \<lparr>version = JNumber 1, exportedAt = [], deviceId = [],
            bookmarks = Some [Bookmark [0x41] (Some 1700000000000) [0x68]]\<rparr>) =
     Inr [Bookmark [0x41] (Some 1700000000000) [0x68]] \<and>
   deserializeFromJson
     (Some \<lparr>version = JNumber 2, exportedAt = [], deviceId = [],
            bookmarks = Some [Bookmark [0x41] (Some 1700000000000) [0x68]]\<rparr>) =
     Inl InvalidBookmarkFormat \<and>
   deserializeFromJson
     (Some \<lparr>version = JNumber 1, exportedAt = [], deviceId = [], bookmarks = Some []\<rparr>) = Inr [] \<and>
   deserializeFromJson
     (Some (serializeToJson [0x32] [BookmarkTreeNode [] None None
        (Some [BookmarkTreeNode [0x42] None None None,
               BookmarkTreeNode [0x41] (Some 5) (Some [0x68]) None])] [0x64])) =
     Inr [Folder [0x42] None [], Bookmark [0x41] (Some 5) [0x68]]"
proof -
  let ?d = "\<lparr>version = JNumber 1, exportedAt = [], deviceId = [],
            bookmarks = Some [Bookmark [0x41] (Some 1700000000000) [0x68]]\<rparr>"
  let ?t = "[BookmarkTreeNode [] None None
        (Some [BookmarkTreeNode [0x42] None None None,
               BookmarkTreeNode [0x41] (Some 5) (Some [0x68]) None])]"
  have h: "bookmarks ?d = Some [Bookmark [0x41] (Some 1700000000000) [0x68]] \<and>
           version ?d = JNumber 1"
    by simp
  from h deserialize_throws_exactly [where d = ?d and bs = "[Bookmark [0x41] (Some 1700000000000) [0x68]]"
      and now = "[0x32]" and t = ?t and device = "[0x64]"]
  have "deserializeFromJson (Some ?d) = Inr [Bookmark [0x41] (Some 1700000000000) [0x68]] \<and>
        deserializeFromJson (Some (serializeToJson [0x32] ?t [0x64])) =
          Inr (map serializeNode (rootChildren ?t))"
    by blast
  then show ?thesis
    by (simp add: deserializeFromJson_def rootChildren_def)
qed

section \<open>\<open>JSON.stringify\<close> and \<open>bookmarksEqual\<close>\<close>

text \<open>
  \<open>JSON.stringify\<close> on the values the serializer builds.  A string is quoted: backspace,
  tab, line feed, form feed, carriage return, the quotation mark and the backslash become a
  backslash followed by \<open>b\<close>, \<open>t\<close>, \<open>n\<close>, \<open>f\<close>, \<open>r\<close>, the quotation mark or a
  backslash; any other code unit below \<open>0x20\<close> and any unpaired surrogate becomes a
  backslash, \<open>u\<close> and four lower-case hexadecimal digits; every other code unit stands for
  itself.  An integer is written in decimal.  An object lists its properties in insertion
  order and leaves out a property whose value is \<open>undefined\<close>; an array lists its elements
  between brackets, separated by commas.  \<open>lit\<close> turns an ASCII literal of the source into
  code units; the punctuation is given by its code: \<open>0x22\<close> quotation mark, \<open>0x5C\<close>
  backslash, \<open>0x2C\<close> comma, \<open>0x2D\<close> minus, \<open>0x3A\<close> colon, \<open>0x5B\<close> and \<open>0x5D\<close>
  brackets, \<open>0x7B\<close> and \<open>0x7D\<close> braces.
\<close>

definition lit :: "string \<Rightarrow> jsstring" where
  "lit s = map (\<lambda>c. of_nat (of_char c)) s"

definition hex_digit :: "nat \<Rightarrow> 16 word" where
  "hex_digit d = (if d < 10 then of_nat (48 + d) else of_nat (87 + d))"

definition unicode_escape :: "16 word \<Rightarrow> jsstring" where
  "unicode_escape c =
     [0x5C, 0x75, hex_digit (unat c div 4096), hex_digit (unat c div 256 mod 16),
      hex_digit (unat c div 16 mod 16), hex_digit (unat c mod 16)]"

definition quote_unit :: "16 word \<Rightarrow> jsstring" where
  "quote_unit c =
     (if c = 0x08 then [0x5C, 0x62]
      else if c = 0x09 then [0x5C, 0x74]
      else if c = 0x0A then [0x5C, 0x6E]
      else if c = 0x0C then [0x5C, 0x66]
      else if c = 0x0D then [0x5C, 0x72]
      else if c = 0x22 then [0x5C, 0x22]
      else if c = 0x5C then [0x5C, 0x5C]
      else if c < 0x20 then unicode_escape c
      else [c])"

fun quote_units :: "jsstring \<Rightarrow> jsstring" where
  "quote_units [] = []"
| "quote_units (c # cs) =
     (if is_high c then
        (case cs of
           [] \<Rightarrow> unicode_escape c
         | d # ds \<Rightarrow> if is_low d then c # d # quote_units ds
                    else unicode_escape c @ quote_units cs)
      else if is_low c then unicode_escape c @ quote_units cs
      else quote_unit c @ quote_units cs)"

definition QuoteJSONString :: "jsstring \<Rightarrow> jsstring" where
  "QuoteJSONString s = 0x22 # quote_units s @ [0x22]"

fun digits :: "nat \<Rightarrow> jsstring" where
  "digits n = (if n < 10 then [of_nat (48 + n)] else digits (n div 10) @ [of_nat (48 + n mod 10)])"

declare digits.simps [simp del]

definition number_to_string :: "int \<Rightarrow> jsstring" where
  "number_to_string n = (if n < 0 then 0x2D # digits (nat (- n)) else digits (nat n))"

definition property :: "string \<Rightarrow> jsstring \<Rightarrow> jsstring" where
  "property name v = QuoteJSONString (lit name) @ 0x3A # v"

definition stringify_array :: "jsstring list \<Rightarrow> jsstring" where
  "stringify_array elements =
     (case elements of
        [] \<Rightarrow> lit ''[]''
      | e # es \<Rightarrow> 0x5B # e @ concat (map (\<lambda>x. 0x2C # x) es) @ [0x5D])"

definition dateAdded_property :: "int option \<Rightarrow> jsstring" where
  "dateAdded_property d =
     (case d of None \<Rightarrow> [] | Some n \<Rightarrow> 0x2C # property ''dateAdded'' (number_to_string n))"

definition bookmark_object :: "jsstring \<Rightarrow> int option \<Rightarrow> jsstring \<Rightarrow> jsstring" where
  "bookmark_object t d u =
     0x7B # property ''title'' (QuoteJSONString t) @ dateAdded_property d @
     0x2C # property ''type'' (QuoteJSONString (lit ''bookmark'')) @
     0x2C # property ''url'' (QuoteJSONString u) @ [0x7D]"

definition folder_object :: "jsstring \<Rightarrow> int option \<Rightarrow> jsstring \<Rightarrow> jsstring" where
  "folder_object t d cs =
     0x7B # property ''title'' (QuoteJSONString t) @ dateAdded_property d @
     0x2C # property ''type'' (QuoteJSONString (lit ''folder'')) @
     0x2C # property ''children'' cs @ [0x7D]"

fun stringify_node :: "serialized \<Rightarrow> jsstring" where
  "stringify_node (Bookmark t d u) = bookmark_object t d u"
| "stringify_node (Folder t d cs) = folder_object t d (stringify_array (map stringify_node cs))"

text \<open>\<open>JSON.stringify(undefined)\<close> is \<open>undefined\<close>.\<close>

definition JSON_stringify :: "serialized list option \<Rightarrow> jsstring option" where
  "JSON_stringify v = map_option (\<lambda>nodes. stringify_array (map stringify_node nodes)) v"


text \<open>The text of a small forest: a folder holding one link, and an empty folder.\<close>

lemma digits_small: "n < 10 \<Longrightarrow> digits n = [of_nat (48 + n)]"
  by (simp add: digits.simps [of n])

lemma digits_large: "10 \<le> n \<Longrightarrow> digits n = digits (n div 10) @ [of_nat (48 + n mod 10)]"
  by (simp add: digits.simps [of n])

lemmas stringify_eval = JSON_stringify_def stringify_array_def bookmark_object_def folder_object_def
  property_def dateAdded_property_def number_to_string_def QuoteJSONString_def lit_def
  quote_unit_def unicode_escape_def hex_digit_def is_high_def is_low_def digits_small digits_large

lemma JSON_stringify_example:
  \<open>JSON_stringify (Some [Folder (lit ''Work'') (Some 1700) [Bookmark (lit ''A'') None (lit ''http://a'')],
                         Folder [] None []]) =
   Some (lit ''[{"title":"Work","dateAdded":1700,"type":"folder","children":[{"title":"A","type":"bookmark","url":"http://a"}]},{"title":"","type":"folder","children":[]}]'')\<close>
  by (simp add: stringify_eval)

subsection \<open>Reading a quoted string back\<close>


















subsection \<open>Numbers\<close>






lemma digits_nonempty: "digits n \<noteq> []"
  by (simp add: digits.simps [of n])






subsection \<open>Objects and arrays\<close>

















end
